theory Spec2Isabelle
  imports Complex_Main "HOL-Library.Word"
begin

section \<open>Tremor detection: acquisition, spectral scoring and classification\<close>

text \<open>
  The repository holds two scripts that share one pipeline: the resting-tremor script
  \<^verbatim>\<open>mpu6050_tremor_detection.py\<close> and the action-tremor (spiral drawing) script
  \<^verbatim>\<open>spiral.py\<close>. Python integers are modelled as \<^typ>\<open>int\<close>; Python and numpy floats
  are modelled as \<^typ>\<open>real\<close>, so rounding, infinities and NaN are outside the model.
  An exception is a value of type \<open>py_error\<close>, returned as \<open>Inl\<close>.
\<close>

datatype py_error = OSError | IndexError | ValueError

subsection \<open>Register words\<close>

text \<open>
  The body shared by \<^verbatim>\<open>read_word_2c\<close> and \<^verbatim>\<open>read_word_2c_safe\<close>, after the
  two byte reads:
  \<^verbatim>\<open>val = (high << 8) + low
  if val >= 0x8000: return -((65535 - val) + 1)
  else: return val\<close>
\<close>

definition word_2c :: "int \<Rightarrow> int \<Rightarrow> int" where
  "word_2c high low =
     (let val = push_bit 8 high + low
      in if val \<ge> 0x8000 then - ((65535 - val) + 1) else val)"

text \<open>
  Conversion to physical units, the same text in both scripts:
  \<^verbatim>\<open>ax = (accel_x / 16384.0) * 9.81\<close> and \<^verbatim>\<open>gx = gyro_x / 131.0\<close>.
\<close>

definition ax :: "int \<Rightarrow> real" where
  "ax accel_x = (real_of_int accel_x / 16384.0) * 9.81"

definition gx :: "int \<Rightarrow> real" where
  "gx gyro_x = real_of_int gyro_x / 131.0"

text \<open>The high and low register bytes of a 16-bit word.\<close>

definition high_byte :: "16 word \<Rightarrow> int" where
  "high_byte w = uint (drop_bit 8 w)"

definition low_byte :: "16 word \<Rightarrow> int" where
  "low_byte w = uint (take_bit 8 w)"

subsection \<open>The I2C bus and the two register readers\<close>

text \<open>
  \<^verbatim>\<open>bus.read_byte_data(addr, reg)\<close> either returns the byte of a register or raises
  \<^verbatim>\<open>OSError\<close> (bus busy, device not answering). The device says, for each bus
  transaction in the order the program makes them, whether it fails and what every
  register holds at that moment. The state counts the transactions made and records
  every \<^verbatim>\<open>time.sleep\<close> of the readers, in seconds.
\<close>

record device =
  busy :: "nat \<Rightarrow> bool"
  registers :: "nat \<Rightarrow> int \<Rightarrow> int \<Rightarrow> int"

record io =
  calls :: nat
  sleeps :: "real list"


definition sleep :: "real \<Rightarrow> io \<Rightarrow> io" where
  "sleep d s = s\<lparr>sleeps := sleeps s @ [d]\<rparr>"




text \<open>The number of failed transactions among those numbered from \<open>a\<close> up to \<open>b\<close>.\<close>

definition failures :: "device \<Rightarrow> nat \<Rightarrow> nat \<Rightarrow> nat" where
  "failures dev a b = length (filter (busy dev) [a..<b])"

subsection \<open>Band power ratio and peak frequency\<close>

text \<open>
  numpy's boolean-mask indexing \<^verbatim>\<open>a[mask]\<close> keeps the elements whose mask entry is
  true, and raises \<^verbatim>\<open>IndexError\<close> when the mask and the array differ in length.
  \<^verbatim>\<open>np.sum\<close> is \<^const>\<open>sum_list\<close>. \<^verbatim>\<open>np.argmax\<close> raises \<^verbatim>\<open>ValueError\<close> on an empty
  array and otherwise scans from the left, replacing the candidate only by a strictly
  greater value. Indexing a one-dimensional array by a non-negative integer out of its
  range raises \<^verbatim>\<open>IndexError\<close>.
\<close>

definition mask_index :: "'a list \<Rightarrow> bool list \<Rightarrow> py_error + 'a list" where
  "mask_index a sel =
     (if length sel = length a then Inr (map fst (filter snd (zip a sel)))
      else Inl IndexError)"

fun argmax_scan :: "nat \<Rightarrow> real \<Rightarrow> nat \<Rightarrow> real list \<Rightarrow> nat" where
  "argmax_scan best mp i [] = best"
| "argmax_scan best mp i (x # xs) =
     (if x > mp then argmax_scan i x (Suc i) xs else argmax_scan best mp (Suc i) xs)"

definition np_argmax :: "real list \<Rightarrow> py_error + nat" where
  "np_argmax a = (case a of [] \<Rightarrow> Inl ValueError | x # xs \<Rightarrow> Inr (argmax_scan 0 x 1 xs))"

definition py_index :: "'a list \<Rightarrow> nat \<Rightarrow> py_error + 'a" where
  "py_index a i = (if i < length a then Inr (a ! i) else Inl IndexError)"

text \<open>
  The same text for the accelerometer and the gyroscope, in both scripts:
  \<^verbatim>\<open>tremor_band = (freqs >= 4) & (freqs <= 6)
  tremor_power = np.sum(psd[tremor_band])
  total_power = np.sum(psd[freqs <= 15])
  tremor_ratio = tremor_power / total_power if total_power > 0 else 0
  peak_idx = np.argmax(psd[freqs <= 10])
  peak_freq = freqs[freqs <= 10][peak_idx]\<close>
\<close>

definition tremor_power :: "real list \<Rightarrow> real list \<Rightarrow> py_error + real" where
  "tremor_power freqs psd =
     (let tremor_band = map (\<lambda>f. f \<ge> 4 \<and> f \<le> 6) freqs
      in case mask_index psd tremor_band of
           Inl e \<Rightarrow> Inl e
         | Inr band \<Rightarrow> Inr (sum_list band))"

definition total_power :: "real list \<Rightarrow> real list \<Rightarrow> py_error + real" where
  "total_power freqs psd =
     (case mask_index psd (map (\<lambda>f. f \<le> 15) freqs) of
        Inl e \<Rightarrow> Inl e
      | Inr band \<Rightarrow> Inr (sum_list band))"

definition tremor_ratio :: "real list \<Rightarrow> real list \<Rightarrow> py_error + real" where
  "tremor_ratio freqs psd =
     (case tremor_power freqs psd of
        Inl e \<Rightarrow> Inl e
      | Inr tremor_pow \<Rightarrow>
          (case total_power freqs psd of
             Inl e \<Rightarrow> Inl e
           | Inr total_pow \<Rightarrow>
               Inr (if total_pow > 0 then tremor_pow / total_pow else 0)))"

definition peak_idx :: "real list \<Rightarrow> real list \<Rightarrow> py_error + nat" where
  "peak_idx freqs psd =
     (case mask_index psd (map (\<lambda>f. f \<le> 10) freqs) of
        Inl e \<Rightarrow> Inl e
      | Inr band \<Rightarrow> np_argmax band)"

definition peak_freq :: "real list \<Rightarrow> real list \<Rightarrow> py_error + real" where
  "peak_freq freqs psd =
     (case peak_idx freqs psd of
        Inl e \<Rightarrow> Inl e
      | Inr i \<Rightarrow>
          (case mask_index freqs (map (\<lambda>f. f \<le> 10) freqs) of
             Inl e \<Rightarrow> Inl e
           | Inr fsel \<Rightarrow> py_index fsel i))"

text \<open>
  The specification's band power: the sum of the power values whose frequency falls in
  \<open>[lo, hi]\<close>, written over the bin numbers.
\<close>

definition band_power :: "real list \<Rightarrow> real list \<Rightarrow> real \<Rightarrow> real \<Rightarrow> real" where
  "band_power freqs psd lo hi =
     sum_list (map (\<lambda>i. psd ! i)
       (filter (\<lambda>i. lo \<le> freqs ! i \<and> freqs ! i \<le> hi) [0..<length freqs]))"

subsection \<open>Classification, resting-tremor script\<close>

text \<open>
  \<^verbatim>\<open>combined_ratio = (tremor_ratio_accel + tremor_ratio_gyro) / 2
  if (tremor_ratio_accel > 0.3 or tremor_ratio_gyro > 0.3) and \
     (4 <= peak_freq_accel <= 6 or 4 <= peak_freq_gyro <= 6):
      tremor_status = "TREMOR DETECTED"
      if tremor_ratio_gyro > tremor_ratio_accel: ... ROTATIONAL ...
      else: ... LINEAR ...
  elif combined_ratio > 0.15:
      tremor_status = "POSSIBLE TREMOR"
  else:
      tremor_status = "NO TREMOR"\<close>
  The status strings are the constructors of \<open>resting_status\<close>; the type printed under
  a detected tremor is the second component of the result.
\<close>

datatype resting_status = TREMOR_DETECTED | POSSIBLE_TREMOR | NO_TREMOR

datatype tremor_type = ROTATIONAL | LINEAR

definition tremor_status_resting ::
  "real \<Rightarrow> real \<Rightarrow> real \<Rightarrow> real \<Rightarrow> resting_status \<times> tremor_type option" where
  "tremor_status_resting tremor_ratio_accel tremor_ratio_gyro peak_freq_accel peak_freq_gyro =
     (let combined_ratio = (tremor_ratio_accel + tremor_ratio_gyro) / 2
      in if (tremor_ratio_accel > 0.3 \<or> tremor_ratio_gyro > 0.3) \<and>
            (4 \<le> peak_freq_accel \<and> peak_freq_accel \<le> 6 \<or>
             4 \<le> peak_freq_gyro \<and> peak_freq_gyro \<le> 6)
         then (TREMOR_DETECTED,
               Some (if tremor_ratio_gyro > tremor_ratio_accel then ROTATIONAL else LINEAR))
         else if combined_ratio > 0.15 then (POSSIBLE_TREMOR, None)
         else (NO_TREMOR, None))"

subsection \<open>Classification, action-tremor script\<close>

definition RATIO_SIGNIFICANT :: real where "RATIO_SIGNIFICANT = 0.35"
definition RATIO_MILD :: real where "RATIO_MILD = 0.20"
definition RMS_ACCEL_SIGNIFICANT :: real where "RMS_ACCEL_SIGNIFICANT = 0.50"
definition RMS_ACCEL_MILD :: real where "RMS_ACCEL_MILD = 0.35"
definition RMS_GYRO_SIGNIFICANT :: real where "RMS_GYRO_SIGNIFICANT = 18"
definition RMS_GYRO_MILD :: real where "RMS_GYRO_MILD = 10"

text \<open>
  \<^verbatim>\<open>high_tremor_ratio = (tremor_ratio_accel > RATIO_SIGNIFICANT or tremor_ratio_gyro > RATIO_SIGNIFICANT)
  correct_frequency = (4 <= peak_freq_accel <= 6 or 4 <= peak_freq_gyro <= 6)
  high_amplitude = (tremor_rms_accel > RMS_ACCEL_SIGNIFICANT or tremor_rms_gyro > RMS_GYRO_SIGNIFICANT)
  moderate_tremor_ratio = (tremor_ratio_accel > RATIO_MILD or tremor_ratio_gyro > RATIO_MILD)
  moderate_amplitude = (tremor_rms_accel > RMS_ACCEL_MILD or tremor_rms_gyro > RMS_GYRO_MILD)
  if correct_frequency and (high_tremor_ratio or high_amplitude): "SIGNIFICANT ACTION TREMOR"
  elif correct_frequency and (moderate_tremor_ratio or moderate_amplitude): "MILD ACTION TREMOR"
  else: "NO SIGNIFICANT TREMOR"\<close>
\<close>

datatype action_status =
  SIGNIFICANT_ACTION_TREMOR | MILD_ACTION_TREMOR | NO_SIGNIFICANT_TREMOR

definition high_tremor_ratio :: "real \<Rightarrow> real \<Rightarrow> bool" where
  "high_tremor_ratio tremor_ratio_accel tremor_ratio_gyro \<longleftrightarrow>
     tremor_ratio_accel > RATIO_SIGNIFICANT \<or> tremor_ratio_gyro > RATIO_SIGNIFICANT"

definition correct_frequency :: "real \<Rightarrow> real \<Rightarrow> bool" where
  "correct_frequency peak_freq_accel peak_freq_gyro \<longleftrightarrow>
     4 \<le> peak_freq_accel \<and> peak_freq_accel \<le> 6 \<or> 4 \<le> peak_freq_gyro \<and> peak_freq_gyro \<le> 6"

definition high_amplitude :: "real \<Rightarrow> real \<Rightarrow> bool" where
  "high_amplitude tremor_rms_accel tremor_rms_gyro \<longleftrightarrow>
     tremor_rms_accel > RMS_ACCEL_SIGNIFICANT \<or> tremor_rms_gyro > RMS_GYRO_SIGNIFICANT"

definition moderate_tremor_ratio :: "real \<Rightarrow> real \<Rightarrow> bool" where
  "moderate_tremor_ratio tremor_ratio_accel tremor_ratio_gyro \<longleftrightarrow>
     tremor_ratio_accel > RATIO_MILD \<or> tremor_ratio_gyro > RATIO_MILD"

definition moderate_amplitude :: "real \<Rightarrow> real \<Rightarrow> bool" where
  "moderate_amplitude tremor_rms_accel tremor_rms_gyro \<longleftrightarrow>
     tremor_rms_accel > RMS_ACCEL_MILD \<or> tremor_rms_gyro > RMS_GYRO_MILD"

definition tremor_status_action ::
  "real \<Rightarrow> real \<Rightarrow> real \<Rightarrow> real \<Rightarrow> real \<Rightarrow> real \<Rightarrow> action_status" where
  "tremor_status_action tremor_ratio_accel tremor_ratio_gyro tremor_rms_accel tremor_rms_gyro
       peak_freq_accel peak_freq_gyro =
     (if correct_frequency peak_freq_accel peak_freq_gyro \<and>
         (high_tremor_ratio tremor_ratio_accel tremor_ratio_gyro \<or>
          high_amplitude tremor_rms_accel tremor_rms_gyro)
      then SIGNIFICANT_ACTION_TREMOR
      else if correct_frequency peak_freq_accel peak_freq_gyro \<and>
              (moderate_tremor_ratio tremor_ratio_accel tremor_ratio_gyro \<or>
               moderate_amplitude tremor_rms_accel tremor_rms_gyro)
      then MILD_ACTION_TREMOR
      else NO_SIGNIFICANT_TREMOR)"

text \<open>
  The specification's severity tiers: SIGNIFICANT/DETECTED above MILD/POSSIBLE above
  NONE.
\<close>

fun resting_tier :: "resting_status \<Rightarrow> nat" where
  "resting_tier TREMOR_DETECTED = 2"
| "resting_tier POSSIBLE_TREMOR = 1"
| "resting_tier NO_TREMOR = 0"

fun action_tier :: "action_status \<Rightarrow> nat" where
  "action_tier SIGNIFICANT_ACTION_TREMOR = 2"
| "action_tier MILD_ACTION_TREMOR = 1"
| "action_tier NO_SIGNIFICANT_TREMOR = 0"

section \<open>Properties\<close>

subsection \<open>Decoding of register words\<close>

lemma word_2c_cases:
  assumes "0 \<le> high" "high \<le> 255" "0 \<le> low" "low \<le> 255"
  shows "word_2c high low =
           (if high \<ge> 128 then high * 256 + low - 65536 else high * 256 + low)"
  using assms by (auto simp: word_2c_def Let_def push_bit_eq_mult)

lemma sint16_of_int:
  assumes "0 \<le> v" "v < 65536"
  shows "sint (word_of_int v :: 16 word) = (if v \<ge> 32768 then v - 65536 else v)"
proof (cases "v \<ge> 32768")
  case True
  then have "(v + 32768) mod 65536 = v - 32768"
    using assms by (simp add: mod_pos_geq)
  then show ?thesis using True by (simp add: int_word_sint)
next
  case False
  then have "(v + 32768) mod 65536 = v + 32768"
    using assms by simp
  then show ?thesis using False by (simp add: int_word_sint)
qed

lemma word_2c_sint:
  assumes "0 \<le> high" "high \<le> 255" "0 \<le> low" "low \<le> 255"
  shows "word_2c high low = sint (word_of_int (push_bit 8 high + low) :: 16 word)"
proof -
  have "0 \<le> high * 256 + low" "high * 256 + low < 65536"
    using assms by auto
  then have "sint (word_of_int (high * 256 + low) :: 16 word) =
      (if high * 256 + low \<ge> 32768 then high * 256 + low - 65536 else high * 256 + low)"
    by (rule sint16_of_int)
  moreover have "high * 256 + low \<ge> 32768 \<longleftrightarrow> high \<ge> 128"
    using assms by auto
  ultimately show ?thesis
    using assms by (simp add: word_2c_cases push_bit_eq_mult)
qed

lemma high_byte_div: "high_byte w = uint w div 256"
  by (simp add: high_byte_def drop_bit_eq_div uint_div_distrib)

lemma low_byte_mod: "low_byte w = uint w mod 256"
  by (simp add: low_byte_def take_bit_eq_mod uint_mod_distrib)

lemma bytes_word: "push_bit 8 (high_byte w) + low_byte w = uint w"
  by (simp add: high_byte_div low_byte_mod push_bit_eq_mult)

lemma byte_ranges:
  "0 \<le> high_byte w \<and> high_byte w \<le> 255 \<and> 0 \<le> low_byte w \<and> low_byte w \<le> 255"
proof -
  have "uint w < 65536" using uint_bounded [of w] by simp
  moreover have "0 \<le> uint w" by simp
  ultimately show ?thesis unfolding high_byte_div low_byte_mod by presburger
qed

lemma word_2c_bytes: "word_2c (high_byte w) (low_byte w) = sint w"
  using word_2c_sint [of "high_byte w" "low_byte w"] byte_ranges [of w]
  by (simp add: bytes_word)

text \<open>
  C10. For register bytes \<open>high\<close> and \<open>low\<close>, each in \<open>[0, 255]\<close>, the decoder returns
  an integer in \<open>[-32768, 32767]\<close>, and that integer is the two's-complement reading
  of the 16-bit word \<open>(high << 8) + low\<close>.
\<close>

theorem word_2c_signed_16bit:
  assumes "0 \<le> high" "high \<le> 255" "0 \<le> low" "low \<le> 255"
  shows "- 32768 \<le> word_2c high low \<and> word_2c high low \<le> 32767 \<and>
         word_2c high low = sint (word_of_int (push_bit 8 high + low) :: 16 word)"
proof -
  have "word_2c high low =
      (if high \<ge> 128 then high * 256 + low - 65536 else high * 256 + low)"
    using assms by (rule word_2c_cases)
  then have "- 32768 \<le> word_2c high low \<and> word_2c high low \<le> 32767"
    using assms by auto
  then show ?thesis using assms by (simp add: word_2c_sint)
qed

theorem word_2c_signed_16bit_witness:
  "word_2c 255 254 = - 2 \<and> word_2c 127 255 = 32767 \<and> word_2c 128 0 = - 32768 \<and>
   sint (word_of_int (push_bit 8 255 + 254) :: 16 word) = - 2"
  using word_2c_signed_16bit [of 255 254] word_2c_signed_16bit [of 127 255]
    word_2c_signed_16bit [of 128 0]
  by (simp add: word_2c_def)

text \<open>
  C5. For every 16-bit register word \<open>w\<close>, read as its high and low byte, the
  accelerometer value is \<open>(r / 16384) * 9.81\<close> and the gyroscope value is \<open>r / 131\<close>,
  where \<open>r\<close> is the two's-complement value of \<open>w\<close>. Both scripts decode and convert
  with this text.
\<close>

theorem unit_conversion:
  "ax (word_2c (high_byte w) (low_byte w)) = (real_of_int (sint w) / 16384) * 9.81 \<and>
   gx (word_2c (high_byte w) (low_byte w)) = real_of_int (sint w) / 131"
  by (simp add: ax_def gx_def word_2c_bytes)

subsection \<open>Register reads and retries\<close>

lemma failures_empty [simp]: "failures dev a a = 0"
  by (simp add: failures_def)







lemma sleep_fields [simp]: "calls (sleep d s) = calls s" "sleeps (sleep d s) = sleeps s @ [d]"
  by (simp_all add: sleep_def)






subsection \<open>Band power ratio\<close>

text \<open>The bins selected by a test on the frequency, as a list of bin numbers.\<close>

lemma mask_index_bins:
  assumes "length fs = length a"
  shows "mask_index a (map P fs) =
           Inr (map ((!) a) (filter (\<lambda>i. P (fs ! i)) [0..<length fs]))"
proof -
  have "map fst (filter snd (zip a (map P fs))) =
          map ((!) a) (filter (\<lambda>i. P (fs ! i)) [0..<length fs])"
    using assms
  proof (induction fs a rule: list_induct2)
    case Nil
    then show ?case by simp
  next
    case (Cons f fs x a)
    have "[0..<Suc (length fs)] = 0 # [Suc 0..<Suc (length fs)]"
      by (rule upt_conv_Cons) simp
    then have "[0..<length (f # fs)] = 0 # map Suc [0..<length fs]"
      by (simp only: map_Suc_upt list.size) simp
    then show ?case using Cons.IH
      by (simp add: filter_map o_def)
  qed
  then show ?thesis using assms by (simp add: mask_index_def)
qed

lemma tremor_power_band:
  assumes "length freqs = length psd"
  shows "tremor_power freqs psd = Inr (band_power freqs psd 4 6)"
  using mask_index_bins [OF assms, of "\<lambda>f. f \<ge> 4 \<and> f \<le> 6"]
  by (simp add: tremor_power_def band_power_def)

lemma total_power_bins:
  assumes "length freqs = length psd"
  shows "total_power freqs psd =
           Inr (sum_list (map ((!) psd) (filter (\<lambda>i. freqs ! i \<le> 15) [0..<length freqs])))"
  using mask_index_bins [OF assms, of "\<lambda>f. f \<le> 15"]
  by (simp add: total_power_def)

lemma total_power_band:
  assumes "length freqs = length psd" "\<forall>f \<in> set freqs. 0 \<le> f"
  shows "total_power freqs psd = Inr (band_power freqs psd 0 15)"
proof -
  have "filter (\<lambda>i. freqs ! i \<le> 15) [0..<length freqs] =
        filter (\<lambda>i. 0 \<le> freqs ! i \<and> freqs ! i \<le> 15) [0..<length freqs]"
    using assms(2) by (intro filter_cong) auto
  then show ?thesis
    using total_power_bins [OF assms(1)] by (simp add: band_power_def)
qed

lemma sum_list_filter_mono:
  fixes g :: "'a \<Rightarrow> real"
  assumes "\<forall>x \<in> set xs. 0 \<le> g x" "\<forall>x \<in> set xs. P x \<longrightarrow> Q x"
  shows "sum_list (map g (filter P xs)) \<le> sum_list (map g (filter Q xs))"
  using assms by (induction xs) (auto simp: add_increasing)

lemma sum_list_filter_nonneg:
  fixes g :: "'a \<Rightarrow> real"
  assumes "\<forall>x \<in> set xs. 0 \<le> g x"
  shows "0 \<le> sum_list (map g (filter P xs))"
  using assms by (induction xs) auto

lemma band_power_nonneg:
  assumes "length freqs = length psd" "\<forall>p \<in> set psd. 0 \<le> p"
  shows "0 \<le> band_power freqs psd lo hi"
  unfolding band_power_def
  by (rule sum_list_filter_nonneg) (use assms in auto)

lemma band_le_total:
  assumes "length freqs = length psd" "\<forall>p \<in> set psd. 0 \<le> p" "hi \<le> 15"
    and "total_power freqs psd = Inr t"
  shows "band_power freqs psd lo hi \<le> t"
proof -
  have "sum_list (map ((!) psd) (filter (\<lambda>i. lo \<le> freqs ! i \<and> freqs ! i \<le> hi) [0..<length freqs]))
      \<le> sum_list (map ((!) psd) (filter (\<lambda>i. freqs ! i \<le> 15) [0..<length freqs]))"
    by (rule sum_list_filter_mono) (use assms in auto)
  then show ?thesis
    using total_power_bins [OF assms(1)] assms(4) by (simp add: band_power_def)
qed

text \<open>
  C6. For a spectrum whose frequency bins are non-negative and whose power values are
  non-negative, the tremor ratio is returned without raising; it is the power in
  \<open>[4, 6]\<close> divided by the power in \<open>[0, 15]\<close>, and 0 when that denominator is 0.
\<close>

theorem tremor_ratio_band_quotient:
  assumes "length freqs = length psd"
    and "\<forall>f \<in> set freqs. 0 \<le> f"
    and "\<forall>p \<in> set psd. 0 \<le> p"
  shows "tremor_ratio freqs psd =
           Inr (if band_power freqs psd 0 15 = 0 then 0
                else band_power freqs psd 4 6 / band_power freqs psd 0 15)"
proof -
  have "0 \<le> band_power freqs psd 0 15"
    using assms(1,3) by (rule band_power_nonneg)
  then show ?thesis
    using tremor_power_band [OF assms(1)] total_power_band [OF assms(1,2)]
    by (auto simp: tremor_ratio_def)
qed

theorem tremor_ratio_band_quotient_witness:
  "tremor_ratio [0, 2, 5, 12, 20] [1, 2, 3, 4, 5] = Inr (3 / 10) \<and>
   band_power [0, 2, 5, 12, 20] [1, 2, 3, 4, 5] 4 6 = 3 \<and>
   band_power [0, 2, 5, 12, 20] [1, 2, 3, 4, 5] 0 15 = 10 \<and>
   tremor_ratio [0, 5] [0, 0] = Inr 0"
  using tremor_ratio_band_quotient [of "[0, 2, 5, 12, 20]" "[1, 2, 3, 4, 5]"]
    tremor_ratio_band_quotient [of "[0, 5]" "[0, 0]"]
  by (simp add: band_power_def upt_conv_Cons)

text \<open>
  C4, as amended. For a spectrum with non-negative power values the tremor ratio lies in
  \<open>[0, 1]\<close>; it is 0 exactly when the power in \<open>[4, 6]\<close> is 0, which includes every
  spectrum whose power in \<open>[0, 15]\<close> is 0.
\<close>

theorem tremor_ratio_bounds:
  assumes "length freqs = length psd"
    and "\<forall>p \<in> set psd. 0 \<le> p"
  shows "\<exists>r. tremor_ratio freqs psd = Inr r \<and> 0 \<le> r \<and> r \<le> 1 \<and>
           (r = 0 \<longleftrightarrow> band_power freqs psd 4 6 = 0) \<and>
           (band_power freqs psd 0 15 = 0 \<longrightarrow> r = 0)"
proof -
  obtain t where t: "total_power freqs psd = Inr t"
    using total_power_bins [OF assms(1)] by simp
  let ?b = "band_power freqs psd 4 6"
  have b0: "0 \<le> ?b" using assms by (rule band_power_nonneg)
  have bt: "?b \<le> t" using assms _ t by (rule band_le_total) simp
  have b15: "?b \<le> band_power freqs psd 0 15"
    unfolding band_power_def by (rule sum_list_filter_mono) (use assms in auto)
  let ?r = "if t > 0 then ?b / t else 0"
  have r: "tremor_ratio freqs psd = Inr ?r"
    using tremor_power_band [OF assms(1)] t by (simp add: tremor_ratio_def)
  have "0 \<le> ?r" using b0 by simp
  moreover have "?r \<le> 1" using bt by simp
  moreover have "?r = 0 \<longleftrightarrow> ?b = 0" using b0 bt by auto
  moreover have "band_power freqs psd 0 15 = 0 \<longrightarrow> ?r = 0" using b0 b15 by auto
  ultimately show ?thesis using r by blast
qed

theorem tremor_ratio_bounds_witness:
  "(\<exists>r. tremor_ratio [0, 2, 5, 12, 20] [1, 2, 3, 4, 5] = Inr r \<and> 0 \<le> r \<and> r \<le> 1) \<and>
   tremor_ratio [0, 2, 5, 12, 20] [1, 2, 3, 4, 5] = Inr (3 / 10) \<and>
   tremor_ratio [0, 2, 12] [0, 0, 0] = Inr 0"
  using tremor_ratio_bounds [of "[0, 2, 5, 12, 20]" "[1, 2, 3, 4, 5]"]
    tremor_ratio_bounds [of "[0, 2, 12]" "[0, 0, 0]"]
  by (auto simp: tremor_ratio_def tremor_power_def total_power_def mask_index_def)

text \<open>
  C4 as stated fails: a spectrum with all its power at 10 Hz has ratio 0, and its band
  power over \<open>[0, 15]\<close> is 1.
\<close>

theorem tremor_ratio_zero_with_power:
  "tremor_ratio [0, 10] [0, 1] = Inr 0 \<and> band_power [0, 10] [0, 1] 0 15 = 1 \<and>
   total_power [0, 10] [0, 1] = Inr 1"
  by (simp add: tremor_ratio_def tremor_power_def total_power_def mask_index_def
      band_power_def upt_conv_Cons)

subsection \<open>Peak frequency\<close>

lemma argmax_scan_first_max:
  assumes "length pre = i" "best < i" "pre ! best = mp"
    and "\<forall>j < i. pre ! j \<le> mp" "\<forall>j < best. pre ! j < mp"
  shows "argmax_scan best mp i xs < length (pre @ xs) \<and>
         (\<forall>j < length (pre @ xs). (pre @ xs) ! j \<le> (pre @ xs) ! argmax_scan best mp i xs) \<and>
         (\<forall>j < argmax_scan best mp i xs. (pre @ xs) ! j < (pre @ xs) ! argmax_scan best mp i xs)"
  using assms
proof (induction xs arbitrary: best mp i pre)
  case Nil
  then show ?case by simp
next
  case (Cons x xs)
  have len: "length (pre @ [x]) = Suc i" using Cons.prems(1) by simp
  show ?case
  proof (cases "x > mp")
    case True
    have a: "i < Suc i" by simp
    have b: "(pre @ [x]) ! i = x" using Cons.prems(1) by (simp add: nth_append)
    have c: "\<forall>j < Suc i. (pre @ [x]) ! j \<le> x"
      using Cons.prems(1,4) True by (auto simp: nth_append less_Suc_eq)
    have d: "\<forall>j < i. (pre @ [x]) ! j < x"
      using Cons.prems(1,4) True by (fastforce simp: nth_append)
    from Cons.IH [OF len a b c d] True show ?thesis by simp
  next
    case False
    have a: "best < Suc i" using Cons.prems(2) by simp
    have b: "(pre @ [x]) ! best = mp" using Cons.prems(1,2,3) by (simp add: nth_append)
    have c: "\<forall>j < Suc i. (pre @ [x]) ! j \<le> mp"
      using Cons.prems(1,4) False by (auto simp: nth_append less_Suc_eq)
    have d: "\<forall>j < best. (pre @ [x]) ! j < mp"
      using Cons.prems(1,2,5) by (auto simp: nth_append)
    from Cons.IH [OF len a b c d] False show ?thesis by simp
  qed
qed

lemma np_argmax_first_max:
  assumes "a \<noteq> []"
  shows "\<exists>k < length a. np_argmax a = Inr k \<and> (\<forall>j < length a. a ! j \<le> a ! k) \<and>
           (\<forall>j < k. a ! j < a ! k)"
proof -
  obtain x xs where a: "a = x # xs" using assms by (cases a) auto
  have "argmax_scan 0 x 1 xs < length ([x] @ xs) \<and>
         (\<forall>j < length ([x] @ xs). ([x] @ xs) ! j \<le> ([x] @ xs) ! argmax_scan 0 x 1 xs) \<and>
         (\<forall>j < argmax_scan 0 x 1 xs. ([x] @ xs) ! j < ([x] @ xs) ! argmax_scan 0 x 1 xs)"
    by (rule argmax_scan_first_max) simp_all
  then show ?thesis using a by (simp add: np_argmax_def)
qed

lemma bins_nth:
  assumes "k < length (filter Q [0..<n])"
  shows "filter Q [0..<n] ! k < n \<and> Q (filter Q [0..<n] ! k)"
proof -
  have "filter Q [0..<n] ! k \<in> set (filter Q [0..<n])"
    using assms by (rule nth_mem)
  then show ?thesis by simp
qed

lemma bins_index:
  assumes "j < n" "Q j"
  shows "\<exists>k < length (filter Q [0..<n]). filter Q [0..<n] ! k = j"
proof -
  have "j \<in> set (filter Q [0..<n])" using assms by simp
  then show ?thesis by (simp only: in_set_conv_nth)
qed

lemma bins_increasing:
  assumes "k < length (filter Q [0..<n])" "k' < length (filter Q [0..<n])"
    and "filter Q [0..<n] ! k' < filter Q [0..<n] ! k"
  shows "k' < k"
proof (rule ccontr)
  assume "\<not> k' < k"
  then have "k \<le> k'" by simp
  moreover have "sorted (filter Q [0..<n])" by (simp add: sorted_wrt_filter)
  ultimately have "filter Q [0..<n] ! k \<le> filter Q [0..<n] ! k'"
    using assms(2) by (simp add: sorted_nth_mono)
  with assms(3) show False by simp
qed

lemma peak_freq_bin:
  assumes "length freqs = length psd"
    and "\<exists>f \<in> set freqs. f \<le> 10"
  shows "\<exists>i < length freqs. peak_freq freqs psd = Inr (freqs ! i) \<and> freqs ! i \<le> 10 \<and>
           (\<forall>j < length freqs. freqs ! j \<le> 10 \<longrightarrow> psd ! j \<le> psd ! i) \<and>
           (\<forall>j < i. freqs ! j \<le> 10 \<longrightarrow> psd ! j < psd ! i) \<and>
           (sorted freqs \<longrightarrow>
              (\<forall>j < length freqs. freqs ! j \<le> 10 \<and> psd ! j = psd ! i \<longrightarrow> freqs ! i \<le> freqs ! j))"
proof -
  let ?Q = "\<lambda>i. freqs ! i \<le> 10"
  let ?bins = "filter ?Q [0..<length freqs]"
  let ?band = "map ((!) psd) ?bins"
  have psd_sel: "mask_index psd (map (\<lambda>f. f \<le> 10) freqs) = Inr ?band"
    using assms(1) by (rule mask_index_bins)
  have freq_sel: "mask_index freqs (map (\<lambda>f. f \<le> 10) freqs) = Inr (map ((!) freqs) ?bins)"
    by (rule mask_index_bins) simp
  obtain j0 where j0: "j0 < length freqs" "freqs ! j0 \<le> 10"
    using assms(2) by (auto simp: in_set_conv_nth)
  then have "j0 \<in> set ?bins" by simp
  then have "0 < length ?bins" by (rule length_pos_if_in_set)
  then have "?band \<noteq> []" by simp
  then obtain k where k: "k < length ?band" "np_argmax ?band = Inr k"
    "\<forall>j < length ?band. ?band ! j \<le> ?band ! k" "\<forall>j < k. ?band ! j < ?band ! k"
    using np_argmax_first_max [of ?band] by blast
  have kb: "k < length ?bins" using k(1) by simp
  let ?i = "?bins ! k"
  have i: "?i < length freqs" "freqs ! ?i \<le> 10"
    using bins_nth [OF kb] by simp_all
  have pk: "peak_freq freqs psd = Inr (freqs ! ?i)"
    using psd_sel freq_sel k(2) kb by (simp add: peak_freq_def peak_idx_def py_index_def)
  have bandk: "?band ! k = psd ! ?i" using kb by simp
  have mx: "psd ! j \<le> psd ! ?i" if h: "j < length freqs" "freqs ! j \<le> 10" for j
  proof -
    obtain k' where k': "k' < length ?bins" "?bins ! k' = j"
      using bins_index [of j "length freqs" ?Q] h by blast
    then have "?band ! k' = psd ! j" by simp
    moreover have "?band ! k' \<le> ?band ! k" using k(3) k'(1) by simp
    ultimately show ?thesis using bandk by simp
  qed
  have first: "psd ! j < psd ! ?i" if h: "j < ?i" "freqs ! j \<le> 10" for j
  proof -
    have "j < length freqs" using h(1) i(1) by simp
    then obtain k' where k': "k' < length ?bins" "?bins ! k' = j"
      using bins_index [of j "length freqs" ?Q] h(2) by blast
    then have "k' < k" using bins_increasing [OF kb k'(1)] h(1) by simp
    then have "?band ! k' < ?band ! k" using k(4) by simp
    moreover have "?band ! k' = psd ! j" using k' by simp
    ultimately show ?thesis using bandk by simp
  qed
  have lowest: "freqs ! ?i \<le> freqs ! j"
    if "sorted freqs" "j < length freqs" "freqs ! j \<le> 10" "psd ! j = psd ! ?i" for j
  proof -
    have "\<not> j < ?i" using first [of j] that(3,4) by auto
    then have "?i \<le> j" by simp
    then show ?thesis using that(1,2) by (simp add: sorted_nth_mono)
  qed
  from i pk mx first lowest show ?thesis by blast
qed

text \<open>
  The silent spectrum: when every power value is 0 the ratio is 0 by the guard on the
  denominator, and the peak frequency is the first bin.
\<close>

lemma silent_bins:
  assumes "\<forall>i \<in> set bins. i < n"
  shows "sum_list (map ((!) (replicate n (0::real))) bins) = 0"
  using assms by (induction bins) auto

lemma silent_band:
  "sum_list (map ((!) (replicate n (0::real))) (filter Q [0..<n])) = 0"
  by (rule silent_bins) simp

lemma silent_spectrum:
  assumes "freqs \<noteq> []" "freqs ! 0 \<le> 10"
  shows "tremor_ratio freqs (replicate (length freqs) 0) = Inr 0 \<and>
         peak_freq freqs (replicate (length freqs) 0) = Inr (freqs ! 0)"
proof -
  let ?z = "replicate (length freqs) (0::real)"
  have len: "length freqs = length ?z" by simp
  have "total_power freqs ?z = Inr 0"
    using total_power_bins [OF len] by (simp add: silent_band)
  moreover have "tremor_power freqs ?z = Inr 0"
    using tremor_power_band [OF len] by (simp add: band_power_def silent_band)
  ultimately have ratio: "tremor_ratio freqs ?z = Inr 0"
    by (simp add: tremor_ratio_def)
  have pos: "0 < length freqs" using assms(1) by simp
  then have "freqs ! 0 \<in> set freqs" by (rule nth_mem)
  with assms(2) have "\<exists>f \<in> set freqs. f \<le> 10" by blast
  from peak_freq_bin [OF len this] obtain i where i: "i < length freqs"
    "peak_freq freqs ?z = Inr (freqs ! i)" "\<forall>j < i. freqs ! j \<le> 10 \<longrightarrow> ?z ! j < ?z ! i"
    by blast
  have "i = 0"
  proof (rule ccontr)
    assume "i \<noteq> 0"
    then have "?z ! 0 < ?z ! i" using i(3) assms(2) by simp
    then show False using i(1) pos by simp
  qed
  with i(2) ratio show ?thesis by simp
qed

text \<open>
  C7. For a spectrum with a bin at or below 10 Hz, the peak frequency is returned
  without raising; it is the frequency of a bin \<open>i\<close> at or below 10 Hz whose power is
  maximal among such bins and strictly greater than the power of every earlier such bin
  (first occurrence). With ascending frequencies it is the lowest frequency that
  attains the maximum.
\<close>

theorem peak_freq_first_maximum:
  assumes "length freqs = length psd"
    and "\<exists>f \<in> set freqs. f \<le> 10"
  shows "\<exists>i < length freqs. peak_freq freqs psd = Inr (freqs ! i) \<and> freqs ! i \<le> 10 \<and>
           (\<forall>j < length freqs. freqs ! j \<le> 10 \<longrightarrow> psd ! j \<le> psd ! i) \<and>
           (\<forall>j < i. freqs ! j \<le> 10 \<longrightarrow> psd ! j < psd ! i) \<and>
           (sorted freqs \<longrightarrow>
              (\<forall>j < length freqs. freqs ! j \<le> 10 \<and> psd ! j = psd ! i \<longrightarrow> freqs ! i \<le> freqs ! j))"
  using assms by (rule peak_freq_bin)

theorem peak_freq_first_maximum_witness:
  "peak_freq [0, 5, 5.5, 12] [1, 3, 3, 9] = Inr 5 \<and>
   (\<exists>i < length [0, 5, 5.5, 12 :: real].
      peak_freq [0, 5, 5.5, 12] [1, 3, 3, 9] = Inr ([0, 5, 5.5, 12] ! i) \<and>
      [0, 5, 5.5, 12 :: real] ! i \<le> 10)"
  using peak_freq_first_maximum [of "[0, 5, 5.5, 12]" "[1, 3, 3, 9]"]
  by (auto simp: peak_freq_def peak_idx_def mask_index_def np_argmax_def py_index_def)

subsection \<open>Classification\<close>

text \<open>
  C1. Resting-tremor policy. The status is TREMOR_DETECTED exactly when some ratio
  exceeds 0.3 and some peak frequency lies in \<open>[4, 6]\<close>. When detected, the type is
  ROTATIONAL exactly when the gyroscope ratio is strictly greater than the
  accelerometer ratio, and LINEAR otherwise. When not detected there is no type, and the
  status is POSSIBLE_TREMOR exactly when the mean of the two ratios exceeds 0.15, and
  NO_TREMOR otherwise.
\<close>

theorem resting_policy:
  "(fst (tremor_status_resting ra rg pa pg) = TREMOR_DETECTED \<longleftrightarrow>
      (ra > 0.3 \<or> rg > 0.3) \<and> (4 \<le> pa \<and> pa \<le> 6 \<or> 4 \<le> pg \<and> pg \<le> 6)) \<and>
   (snd (tremor_status_resting ra rg pa pg) = Some ROTATIONAL \<longleftrightarrow>
      fst (tremor_status_resting ra rg pa pg) = TREMOR_DETECTED \<and> rg > ra) \<and>
   (snd (tremor_status_resting ra rg pa pg) = Some LINEAR \<longleftrightarrow>
      fst (tremor_status_resting ra rg pa pg) = TREMOR_DETECTED \<and> \<not> rg > ra) \<and>
   (snd (tremor_status_resting ra rg pa pg) = None \<longleftrightarrow>
      fst (tremor_status_resting ra rg pa pg) \<noteq> TREMOR_DETECTED) \<and>
   (fst (tremor_status_resting ra rg pa pg) = POSSIBLE_TREMOR \<longleftrightarrow>
      fst (tremor_status_resting ra rg pa pg) \<noteq> TREMOR_DETECTED \<and> (ra + rg) / 2 > 0.15) \<and>
   (fst (tremor_status_resting ra rg pa pg) = NO_TREMOR \<longleftrightarrow>
      fst (tremor_status_resting ra rg pa pg) \<noteq> TREMOR_DETECTED \<and> \<not> (ra + rg) / 2 > 0.15)"
  by (simp add: tremor_status_resting_def Let_def)

theorem resting_policy_witness:
  "tremor_status_resting 0.5 0 5 0 = (TREMOR_DETECTED, Some LINEAR) \<and>
   tremor_status_resting 0.2 0.4 0 4.5 = (TREMOR_DETECTED, Some ROTATIONAL) \<and>
   tremor_status_resting 0.5 0.5 1 9 = (POSSIBLE_TREMOR, None) \<and>
   tremor_status_resting 0.1 0.1 5 5 = (NO_TREMOR, None)"
  using resting_policy [of "0.5" 0 5 0] resting_policy [of "0.2" "0.4" 0 "4.5"]
    resting_policy [of "0.5" "0.5" 1 9] resting_policy [of "0.1" "0.1" 5 5]
  by (simp add: prod_eq_iff)

text \<open>
  C2. Action-tremor policy. With the frequency test \<open>4 \<le> peak \<le> 6\<close> on either sensor,
  the status is SIGNIFICANT_ACTION_TREMOR exactly when the frequency test holds and a
  ratio exceeds 0.35 or the accelerometer RMS exceeds 0.50 or the gyroscope RMS exceeds
  18; otherwise it is MILD_ACTION_TREMOR exactly when the frequency test holds and a
  ratio exceeds 0.20 or the accelerometer RMS exceeds 0.35 or the gyroscope RMS exceeds
  10; otherwise it is NO_SIGNIFICANT_TREMOR.
\<close>

theorem action_policy:
  "(tremor_status_action ra rg rms_a rms_g pa pg = SIGNIFICANT_ACTION_TREMOR \<longleftrightarrow>
      (4 \<le> pa \<and> pa \<le> 6 \<or> 4 \<le> pg \<and> pg \<le> 6) \<and>
      (ra > 0.35 \<or> rg > 0.35 \<or> rms_a > 0.50 \<or> rms_g > 18)) \<and>
   (tremor_status_action ra rg rms_a rms_g pa pg = MILD_ACTION_TREMOR \<longleftrightarrow>
      tremor_status_action ra rg rms_a rms_g pa pg \<noteq> SIGNIFICANT_ACTION_TREMOR \<and>
      (4 \<le> pa \<and> pa \<le> 6 \<or> 4 \<le> pg \<and> pg \<le> 6) \<and>
      (ra > 0.20 \<or> rg > 0.20 \<or> rms_a > 0.35 \<or> rms_g > 10)) \<and>
   (tremor_status_action ra rg rms_a rms_g pa pg = NO_SIGNIFICANT_TREMOR \<longleftrightarrow>
      tremor_status_action ra rg rms_a rms_g pa pg \<noteq> SIGNIFICANT_ACTION_TREMOR \<and>
      tremor_status_action ra rg rms_a rms_g pa pg \<noteq> MILD_ACTION_TREMOR)"
  by (auto simp: tremor_status_action_def correct_frequency_def high_tremor_ratio_def
      high_amplitude_def moderate_tremor_ratio_def moderate_amplitude_def
      RATIO_SIGNIFICANT_def RATIO_MILD_def RMS_ACCEL_SIGNIFICANT_def RMS_ACCEL_MILD_def
      RMS_GYRO_SIGNIFICANT_def RMS_GYRO_MILD_def)

theorem action_policy_witness:
  "tremor_status_action 0.10 0.05 0.10 2 5.0 0 = NO_SIGNIFICANT_TREMOR \<and>
   tremor_status_action 0.40 0 0 0 0 5.0 = SIGNIFICANT_ACTION_TREMOR \<and>
   tremor_status_action 0.10 0.05 0.40 2 5.0 0 = MILD_ACTION_TREMOR \<and>
   tremor_status_action 0.40 0.40 1 20 3 7 = NO_SIGNIFICANT_TREMOR"
  using action_policy [of "0.10" "0.05" "0.10" 2 "5.0" 0]
    action_policy [of "0.40" 0 0 0 0 "5.0"]
    action_policy [of "0.10" "0.05" "0.40" 2 "5.0" 0]
    action_policy [of "0.40" "0.40" 1 20 3 7]
  by simp

text \<open>
  C8. Classifier monotonicity. Raising ratios or RMS values, with the peak frequencies
  fixed, never lowers the severity tier, in either policy. Raising one input alone is
  the case where the other inputs are equal.
\<close>

theorem classifier_monotone:
  assumes "ra \<le> ra'" "rg \<le> rg'" "rms_a \<le> rms_a'" "rms_g \<le> rms_g'"
  shows "resting_tier (fst (tremor_status_resting ra rg pa pg)) \<le>
           resting_tier (fst (tremor_status_resting ra' rg' pa pg)) \<and>
         action_tier (tremor_status_action ra rg rms_a rms_g pa pg) \<le>
           action_tier (tremor_status_action ra' rg' rms_a' rms_g' pa pg)"
proof
  show "resting_tier (fst (tremor_status_resting ra rg pa pg)) \<le>
           resting_tier (fst (tremor_status_resting ra' rg' pa pg))"
    using assms(1,2) by (auto simp: tremor_status_resting_def Let_def)
  show "action_tier (tremor_status_action ra rg rms_a rms_g pa pg) \<le>
           action_tier (tremor_status_action ra' rg' rms_a' rms_g' pa pg)"
    using assms by (auto simp: tremor_status_action_def correct_frequency_def high_tremor_ratio_def
      high_amplitude_def moderate_tremor_ratio_def moderate_amplitude_def
      RATIO_SIGNIFICANT_def RATIO_MILD_def RMS_ACCEL_SIGNIFICANT_def RMS_ACCEL_MILD_def
      RMS_GYRO_SIGNIFICANT_def RMS_GYRO_MILD_def)
qed

theorem classifier_monotone_witness:
  "resting_tier (fst (tremor_status_resting 0.1 0.1 5 5)) \<le>
     resting_tier (fst (tremor_status_resting 0.4 0.1 5 5)) \<and>
   action_tier (tremor_status_action 0.1 0.1 0.4 2 5 5) \<le>
     action_tier (tremor_status_action 0.1 0.1 0.4 19 5 5) \<and>
   resting_tier (fst (tremor_status_resting 0.4 0.1 5 5)) = 2 \<and>
   action_tier (tremor_status_action 0.1 0.1 0.4 2 5 5) = 1"
  using classifier_monotone [of "0.1" "0.4" "0.1" "0.1" "0.4" "0.4" 2 19 5 5]
  by (simp add: tremor_status_resting_def tremor_status_action_def correct_frequency_def
      high_tremor_ratio_def high_amplitude_def moderate_tremor_ratio_def
      moderate_amplitude_def RATIO_SIGNIFICANT_def RATIO_MILD_def RMS_ACCEL_SIGNIFICANT_def
      RMS_ACCEL_MILD_def RMS_GYRO_SIGNIFICANT_def RMS_GYRO_MILD_def)

end
